theory Spec2Isabelle
  imports Main
begin

section \<open>The oc entry point (pkg/cli/cli.go)\<close>

text \<open>
  A shallow embedding of \<^verbatim>\<open>pkg/cli/cli.go\<close>: the multi-call dispatch
  \<^verbatim>\<open>CommandFor\<close>, the default command \<^verbatim>\<open>NewDefaultOcCommand\<close> with its
  fall-through to external plugins, the root command literal of \<^verbatim>\<open>NewOcCommand\<close>
  and the pass \<^verbatim>\<open>changeSharedFlagDefaults\<close>.
\<close>

subsection \<open>Go strings\<close>

text \<open>
  Go strings are byte sequences; they are HOL strings here. The functions below are the
  ones of package \<^verbatim>\<open>strings\<close> and of \<^verbatim>\<open>fmt\<close> that cli.go calls, each at the
  argument shapes cli.go uses (a one-byte separator, a one-byte replacement with
  \<^verbatim>\<open>n = -1\<close>, the verb \<^verbatim>\<open>%d\<close>).
\<close>

fun HasPrefix :: "string \<Rightarrow> string \<Rightarrow> bool" where
  "HasPrefix s [] = True"
| "HasPrefix [] (p # ps) = False"
| "HasPrefix (c # cs) (p # ps) = (c = p \<and> HasPrefix cs ps)"

definition TrimPrefix :: "string \<Rightarrow> string \<Rightarrow> string" where
  "TrimPrefix s p = (if HasPrefix s p then drop (length p) s else s)"

definition HasSuffix :: "string \<Rightarrow> string \<Rightarrow> bool" where
  "HasSuffix s p = HasPrefix (rev s) (rev p)"

definition TrimSuffix :: "string \<Rightarrow> string \<Rightarrow> string" where
  "TrimSuffix s p = (if HasSuffix s p then take (length s - length p) s else s)"

fun Contains :: "string \<Rightarrow> string \<Rightarrow> bool" where
  "Contains [] sub = (sub = [])"
| "Contains (c # cs) sub = (HasPrefix (c # cs) sub \<or> Contains cs sub)"

text \<open>\<^verbatim>\<open>strings.Split(s, sep)\<close> for a separator of one byte: one more piece than
  there are separators, so never the empty list.\<close>

fun Split :: "string \<Rightarrow> char \<Rightarrow> string list" where
  "Split [] sep = [[]]"
| "Split (c # cs) sep =
     (if c = sep then [] # Split cs sep
      else (case Split cs sep of
              [] \<Rightarrow> [[c]]
            | piece # pieces \<Rightarrow> (c # piece) # pieces))"

text \<open>\<^verbatim>\<open>strings.Replace(s, old, new, -1)\<close> for \<^verbatim>\<open>old\<close> and \<^verbatim>\<open>new\<close> of one
  byte each: every occurrence is replaced.\<close>

definition Replace :: "string \<Rightarrow> char \<Rightarrow> char \<Rightarrow> string" where
  "Replace s old new = map (\<lambda>c. if c = old then new else c) s"

text \<open>\<^verbatim>\<open>strings.ToLower\<close> folds by the tables of Go's package \<^verbatim>\<open>unicode\<close>
  (the Kelvin sign becomes \<^verbatim>\<open>k\<close>, for one), which are not part of cli.go: it is taken
  from outside, with the process. The fold of the ASCII letters alone serves the example.\<close>

definition lower_char :: "char \<Rightarrow> char" where
  "lower_char c =
     (case map_of (zip ''ABCDEFGHIJKLMNOPQRSTUVWXYZ'' ''abcdefghijklmnopqrstuvwxyz'') c of
        None \<Rightarrow> c
      | Some l \<Rightarrow> l)"

definition asciiToLower :: "string \<Rightarrow> string" where
  "asciiToLower s = map lower_char s"

text \<open>The verb \<^verbatim>\<open>%d\<close> of \<^verbatim>\<open>fmt\<close> on a Go \<^verbatim>\<open>int\<close>.\<close>

fun digits :: "nat \<Rightarrow> string" where
  "digits n =
     (if n < 10 then [''0123456789'' ! n]
      else digits (n div 10) @ [''0123456789'' ! (n mod 10)])"

declare digits.simps [simp del]

definition Sprintf_d :: "int \<Rightarrow> string" where
  "Sprintf_d i = (if i < 0 then CHR ''-'' # digits (nat (- i)) else digits (nat i))"

subsection \<open>The persistent post-run hook of the root command\<close>

text \<open>
  \<^verbatim>\<open>PersistentPostRunE\<close> of the root built by \<^verbatim>\<open>NewOcCommand\<close> (lines 151-164) is a
  closure over the variable \<^verbatim>\<open>warningsAsErrors\<close>, which the flag
  \<^verbatim>\<open>--warnings-as-errors\<close> is bound to, and over the warning handler, of which it
  reads \<^verbatim>\<open>WarningCount()\<close>. Its result is Go's \<^verbatim>\<open>error\<close>: \<open>None\<close> is \<^verbatim>\<open>nil\<close>,
  \<open>Some msg\<close> the error made by \<^verbatim>\<open>fmt.Errorf\<close>.
\<close>

definition PersistentPostRunE_oc :: "bool \<Rightarrow> int \<Rightarrow> string option" where
  "PersistentPostRunE_oc warningsAsErrors count =
     (if warningsAsErrors then
        (if count = 0 then None
         else if count = 1 then Some (Sprintf_d count @ '' warning received'')
         else Some (Sprintf_d count @ '' warnings received''))
      else None)"

text \<open>
  Modelled from the spec: the program's \<^verbatim>\<open>main\<close>, which turns the error returned by
  the run into the exit status, is not part of cli.go. The spec's exit codes are 0 on
  success and 1 when the accumulated warnings are an error.
\<close>

definition exitStatus :: "string option \<Rightarrow> int" where
  "exitStatus err = (case err of None \<Rightarrow> 0 | Some msg \<Rightarrow> 1)"


subsection \<open>Flags\<close>

text \<open>
  Modelled from the spec: the types \<^verbatim>\<open>pflag.Flag\<close> and \<^verbatim>\<open>pflag.FlagSet\<close> are
  vendored code that is not part of cli.go. The spec's flag descriptor has a "name, default
  value, current value, a changed-by-user bit, help text"; the fields are named as cli.go
  names them, \<open>Value\<close> being the current value that \<^verbatim>\<open>Value.Set\<close> sets. Flag sets
  hold pointers to flags and two flag sets may hold the same pointer, so flags live in a
  heap, addressed by numbers, and a flag set maps each name to the address of the flag of
  that name, which is what \<^verbatim>\<open>Lookup\<close> reads.
\<close>

record Flag =
  Name :: string
  Usage :: string
  DefValue :: string
  Value :: string
  Changed :: bool

type_synonym FlagSet = "string \<rightharpoonup> nat"

type_synonym flag_heap = "nat \<Rightarrow> Flag"

definition Lookup :: "FlagSet \<Rightarrow> string \<Rightarrow> nat option" where
  "Lookup f name = f name"

text \<open>
  Modelled from the spec: \<^verbatim>\<open>pflag.FlagSet.AddFlagSet\<close> is vendored code that is not
  part of cli.go. The spec has the flags of both sets united, and "later-declared values
  win on name collision".
\<close>

definition AddFlagSet :: "FlagSet \<Rightarrow> FlagSet \<Rightarrow> FlagSet" where
  "AddFlagSet f newSet = f ++ newSet"

subsection \<open>Commands\<close>

text \<open>
  The behaviours a \<^verbatim>\<open>cobra.Command\<close> carries are opaque: the ones cli.go defines
  are named, the ones of other packages are numbered.
\<close>

datatype run = runHelp | experimentalHelp | ExternalRun nat

datatype hook = SetDefaultWarningHandler | WarningsAsErrorsCheck | ExternalHook nat

datatype usage = RootTemplater | ExternalUsage nat

text \<open>
  Modelled from the spec: the type \<^verbatim>\<open>cobra.Command\<close> is vendored code that is not
  part of cli.go. The spec's command node has "short/long help text, example text, a local
  flag set, an inheritable flag set, an ordered list of child nodes, and an opaque run
  behavior"; the fields are the ones cli.go sets or copies, under the names it uses. A field
  a struct literal leaves out has Go's zero value (the empty string, \<open>None\<close> for \<^verbatim>\<open>nil\<close>, the empty
  flag set, no children). \<open>Flags\<close> is the set \<^verbatim>\<open>Flags()\<close> returns, \<open>PersistentFlags\<close>
  the one \<^verbatim>\<open>PersistentFlags()\<close> returns, \<open>Commands\<close> the children in order.
\<close>

datatype Command = Command
  (Use: string) (Short: string) (Long: string) (Example: string)
  (Run: "run option")
  (PersistentPreRunE: "hook option") (PersistentPostRunE: "hook option")
  (Hidden: bool)
  (UsageFunc: "usage option")
  (Flags: FlagSet) (PersistentFlags: FlagSet)
  (Commands: "Command list")

text \<open>
  Modelled from the spec: \<^verbatim>\<open>cobra.Command\<close> and its methods are vendored code that is
  not part of cli.go. A node's name is the leading word of its \<open>Use\<close> line; adding
  commands appends them to the children; and the matcher \<^verbatim>\<open>Find\<close> is the spec's
  resolution algorithm: "walk the default tree from the root, matching each path segment
  against child names by exact string equality only (no prefix or fuzzy matching); the walk
  greedily consumes matching segments and stops at the first segment with no exact match,
  ignoring any unmatched trailing segments. If at least the first segment matches, the
  deepest node reached is the resolution target. On failure (no segment matches), return no
  result". A segment that begins with a dash is compared with the names of the children
  like any other segment, the algorithm making no exception for it. \<^verbatim>\<open>Find\<close> returns the
  target, the segments left over and the error.
\<close>

definition CommandName :: "Command \<Rightarrow> string" where
  "CommandName c = takeWhile (\<lambda>ch. ch \<noteq> CHR '' '') (Use c)"

definition AddCommand :: "Command \<Rightarrow> Command list \<Rightarrow> Command" where
  "AddCommand c cmds =
     Command (Use c) (Short c) (Long c) (Example c) (Run c)
       (PersistentPreRunE c) (PersistentPostRunE c) (Hidden c) (UsageFunc c)
       (Flags c) (PersistentFlags c) (Commands c @ cmds)"

fun walk :: "Command \<Rightarrow> string list \<Rightarrow> Command \<times> string list" where
  "walk c [] = (c, [])"
| "walk c (segment # segments) =
     (case find (\<lambda>child. CommandName child = segment) (Commands c) of
        None \<Rightarrow> (c, segment # segments)
      | Some child \<Rightarrow> walk child segments)"

datatype find_error = UnknownCommand string

definition Find :: "Command \<Rightarrow> string list \<Rightarrow> Command option \<times> string list \<times> find_error option" where
  "Find root args =
     (case walk root args of
        (target, rest) \<Rightarrow>
          if length rest < length args then (Some target, rest, None)
          else (None, args, Some (UnknownCommand (case args of [] \<Rightarrow> [] | a # as \<Rightarrow> a))))"

text \<open>
  Modelled from the spec: \<^verbatim>\<open>ktemplates.ActsAsRootCommand\<close> is vendored code; it
  gives the command the help formatting of a root command.
\<close>

definition ActsAsRootCommand :: "Command \<Rightarrow> Command" where
  "ActsAsRootCommand c =
     Command (Use c) (Short c) (Long c) (Example c) (Run c)
       (PersistentPreRunE c) (PersistentPostRunE c) (Hidden c) (Some RootTemplater)
       (Flags c) (PersistentFlags c) (Commands c)"

subsection \<open>changeSharedFlagDefaults\<close>

definition validateMarker :: string where
  "validateMarker = ''Must be one of: strict (or true), warn, ignore (or false)''"

text \<open>The body of the loop after the append (lines 315-319), on the command \<open>currCmd\<close>.\<close>

definition setValidateIgnore :: "Command \<Rightarrow> flag_heap \<Rightarrow> flag_heap" where
  "setValidateIgnore currCmd h =
     (case Lookup (Flags currCmd) ''validate'' of
        None \<Rightarrow> h
      | Some validateFlag \<Rightarrow>
          if Contains (Usage (h validateFlag)) validateMarker
          then h(validateFlag :=
                   (h validateFlag)\<lparr>DefValue := ''ignore'', Value := ''ignore'', Changed := False\<rparr>)
          else h)"

text \<open>The loop of lines 309-320: \<open>cmds\<close> grows by the children of each command visited.\<close>

function changeSharedFlagDefaults_loop :: "nat \<Rightarrow> Command list \<Rightarrow> flag_heap \<Rightarrow> flag_heap" where
  "changeSharedFlagDefaults_loop i cmds h =
     (if i < length cmds
      then changeSharedFlagDefaults_loop (i + 1) (cmds @ Commands (cmds ! i))
             (setValidateIgnore (cmds ! i) h)
      else h)"
  by pat_completeness auto
termination
proof (relation "measure (\<lambda>(i, cmds, h). sum_list (map size (drop i cmds)))")
  show "wf (measure (\<lambda>(i, cmds, h). sum_list (map size (drop i cmds))))" by simp
next
  fix i :: nat and cmds :: "Command list" and h :: flag_heap
  assume lt: "i < length cmds"
  have kids: "sum_list (map size (Commands c)) < size c" for c :: Command
    by (cases c) (simp add: size_list_conv_sum_list)
  have "drop i cmds = cmds ! i # drop (Suc i) cmds"
    using lt by (simp add: Cons_nth_drop_Suc)
  then show "((i + 1, cmds @ Commands (cmds ! i), setValidateIgnore (cmds ! i) h), (i, cmds, h))
        \<in> measure (\<lambda>(i, cmds, h). sum_list (map size (drop i cmds)))"
    using lt kids [of "cmds ! i"] by simp
qed

declare changeSharedFlagDefaults_loop.simps [simp del]

definition changeSharedFlagDefaults :: "Command \<Rightarrow> flag_heap \<Rightarrow> flag_heap" where
  "changeSharedFlagDefaults rootCmd h = changeSharedFlagDefaults_loop 0 [rootCmd] h"

subsection \<open>What cli.go takes from outside\<close>

text \<open>
  The process (\<^verbatim>\<open>runtime.GOOS\<close>, \<^verbatim>\<open>os.Args\<close>, the directories of PATH and which
  files are executable), \<^verbatim>\<open>strings.ToLower\<close>, constants of vendored packages, and
  the commands and flags that constructors of other packages build. \<open>notFoundError\<close> is the text of the error the
  plugin handler returns; \<open>warningsAsErrorsFlag\<close> is the address at which
  \<^verbatim>\<open>flags.BoolVar\<close> allocates the flag \<^verbatim>\<open>warnings-as-errors\<close>, and \<open>kubeFlags\<close>
  are the persistent flags that lines 170-174 add to the root.
\<close>

record externals =
  GOOS :: string
  ToLower :: "string \<Rightarrow> string"
  Args :: "string list"
  PATH :: "string list"
  executable :: "string \<Rightarrow> bool"
  ValidPluginFilenamePrefixes :: "string list"
  ShellCompRequestCmd :: string
  ShellCompNoDescRequestCmd :: string
  notFoundError :: "string list \<Rightarrow> string"
  NewDefaultKubectlCommand :: Command
  NewCommandDeployer :: "string \<Rightarrow> Command"
  NewCommandRecycle :: "string \<Rightarrow> Command"
  warningsAsErrorsFlag :: nat
  kubeFlags :: FlagSet
  groupCommands :: "Command list"
  NewCmdPlugin :: Command
  NewCmdVersion :: Command
  NewCmdOptions :: Command

text \<open>
  What a function of cli.go leaves behind besides its result: the constructors of command
  trees it has called and the file names it has searched PATH for.
\<close>

datatype event =
    CalledNewDefaultKubectlCommand
  | CalledNewCommandDeployer string
  | CalledNewCommandRecycle string
  | CalledShimKubectlForOc
  | CalledNewOcCommand
  | SearchedPath string

text \<open>
  A function that builds a command either returns it (with the flag heap as it is then), or
  the process has been replaced by an external plugin (its path and arguments), or it has
  exited (\<^verbatim>\<open>os.Exit\<close>: the status and what was written to the error stream).
\<close>

datatype outcome =
    Returned Command flag_heap
  | Replaced string "string list"
  | Exited int string

subsection \<open>NewOcCommand\<close>

text \<open>\<^verbatim>\<open>heredoc.Doc\<close> gives the text without its indentation.\<close>

definition cliLong :: string where
  "cliLong =
     ''OpenShift Client\<newline>\<newline>'' @
     ''This client helps you develop, build, deploy, and run your applications on any\<newline>'' @
     ''OpenShift or Kubernetes cluster. It also includes the administrative\<newline>'' @
     ''commands for managing a cluster under the 'adm' subcommand.''"

definition newExperimentalCommand :: Command where
  "newExperimentalCommand =
     Command ''ex'' ''Experimental commands under active development''
       ''The commands grouped here are under development and may change without notice.''
       [] (Some experimentalHelp) None None True None Map.empty Map.empty []"

text \<open>
  The root literal of lines 142-165, its persistent flags, the commands of the groups
  (\<^verbatim>\<open>groups.Add\<close>), the pass over the tree as it is then, the help formatting, and the
  four commands added last. Registering the completion functions (line 288) changes none
  of the fields modelled.
\<close>

definition NewOcCommand :: "externals \<Rightarrow> flag_heap \<Rightarrow> Command \<times> flag_heap" where
  "NewOcCommand ext h =
     (let h1 = h(warningsAsErrorsFlag ext :=
                  \<lparr>Name = ''warnings-as-errors'',
                   Usage = ''Treat warnings received from the server as errors and exit with a non-zero exit code'',
                   DefValue = ''false'', Value = ''false'', Changed = False\<rparr>);
          cmds = Command ''oc'' ''Command line tools for managing applications'' cliLong []
                   (Some runHelp) (Some SetDefaultWarningHandler) (Some WarningsAsErrorsCheck)
                   False None Map.empty
                   ([''warnings-as-errors'' \<mapsto> warningsAsErrorsFlag ext] ++ kubeFlags ext) [];
          cmds = AddCommand cmds (groupCommands ext);
          h2 = changeSharedFlagDefaults cmds h1;
          cmds = ActsAsRootCommand cmds;
          cmds = AddCommand cmds [newExperimentalCommand];
          cmds = AddCommand cmds [NewCmdPlugin ext];
          cmds = AddCommand cmds [NewCmdVersion ext];
          cmds = AddCommand cmds [NewCmdOptions ext]
      in (cmds, h2))"

subsection \<open>The external plugin handler\<close>

text \<open>
  Modelled from the spec: \<^verbatim>\<open>kubecmd.NewDefaultPluginHandler\<close> and
  \<^verbatim>\<open>kubecmd.HandlePluginCommand\<close> are vendored code that is not part of cli.go. The
  spec's locator works on "the ordered list of non-flag arguments" and is triggered only
  when there is at least one. "For decreasing contiguous prefix lengths, longest first,
  join the prefix's segments with a hyphen and prepend each configured valid filename
  prefix, producing one candidate name per (length, prefix) combination. For each
  candidate, scan every directory listed in PATH, in listed order, for an executable file
  with that name. Return the first match found, scanning candidates from longest
  argument-prefix to shortest, and within a given length, configured prefixes in declared
  order." A match replaces the process, "passing the remaining (unconsumed) argument
  suffix"; no match at all is the error that the caller reports.
\<close>

fun Join :: "string list \<Rightarrow> string \<Rightarrow> string" where
  "Join [] sep = []"
| "Join [s] sep = s"
| "Join (s # t # ss) sep = s @ sep @ Join (t # ss) sep"

definition nonFlagArgs :: "string list \<Rightarrow> string list" where
  "nonFlagArgs args = filter (\<lambda>arg. \<not> HasPrefix arg ''-'') args"

definition candidates :: "string list \<Rightarrow> string list \<Rightarrow> (nat \<times> string) list" where
  "candidates prefixes names =
     concat (map (\<lambda>n. map (\<lambda>prefix. (n, prefix @ Join (take n names) ''-'')) prefixes)
                 (rev [1 ..< Suc (length names)]))"

definition LookPath :: "externals \<Rightarrow> string \<Rightarrow> string option" where
  "LookPath ext file = find (executable ext) (map (\<lambda>dir. dir @ ''/'' @ file) (PATH ext))"

fun scan :: "externals \<Rightarrow> (nat \<times> string) list \<Rightarrow> (nat \<times> string) option \<times> event list" where
  "scan ext [] = (None, [])"
| "scan ext ((n, file) # rest) =
     (case LookPath ext file of
        Some path \<Rightarrow> (Some (n, path), [SearchedPath file])
      | None \<Rightarrow> (case scan ext rest of (found, searched) \<Rightarrow> (found, SearchedPath file # searched)))"

fun unconsumed :: "nat \<Rightarrow> string list \<Rightarrow> string list" where
  "unconsumed 0 args = args"
| "unconsumed (Suc n) [] = []"
| "unconsumed (Suc n) (arg # args) =
     (if HasPrefix arg ''-'' then unconsumed (Suc n) args else unconsumed n args)"

datatype handled = NotTriggered | Handed string "string list" | Failed string

definition HandlePluginCommand :: "externals \<Rightarrow> string list \<Rightarrow> handled \<times> event list" where
  "HandlePluginCommand ext cmdArgs =
     (if nonFlagArgs cmdArgs = [] then (NotTriggered, [])
      else (case scan ext (candidates (ValidPluginFilenamePrefixes ext) (nonFlagArgs cmdArgs)) of
              (Some (n, path), searched) \<Rightarrow> (Handed path (unconsumed n cmdArgs), searched)
            | (None, searched) \<Rightarrow> (Failed (notFoundError ext (nonFlagArgs cmdArgs)), searched)))"

subsection \<open>NewDefaultOcCommand\<close>

text \<open>\<open>cmdName\<close> of lines 116-122: the first argument that does not begin with a dash,
  the empty string when there is none.\<close>

definition firstNonFlag :: "string list \<Rightarrow> string" where
  "firstNonFlag cmdPathPieces =
     (case find (\<lambda>arg. \<not> HasPrefix arg ''-'') cmdPathPieces of None \<Rightarrow> [] | Some arg \<Rightarrow> arg)"

definition NewDefaultOcCommand :: "externals \<Rightarrow> flag_heap \<Rightarrow> outcome \<times> event list" where
  "NewDefaultOcCommand ext h =
     (case NewOcCommand ext h of
        (cmd, h') \<Rightarrow>
          if length (Args ext) \<le> 1 then (Returned cmd h', [CalledNewOcCommand])
          else
            (let cmdPathPieces = tl (Args ext) in
             case Find cmd cmdPathPieces of
               (found, rest, None) \<Rightarrow> (Returned cmd h', [CalledNewOcCommand])
             | (found, rest, Some err) \<Rightarrow>
                 (let cmdName = firstNonFlag cmdPathPieces in
                  if cmdName = ''help'' \<or> cmdName = ShellCompRequestCmd ext
                     \<or> cmdName = ShellCompNoDescRequestCmd ext
                  then (Returned cmd h', [CalledNewOcCommand])
                  else
                    (case HandlePluginCommand ext cmdPathPieces of
                       (Failed msg, searched) \<Rightarrow>
                         (Exited 1 (msg @ ''\<newline>''), CalledNewOcCommand # searched)
                     | (Handed path args, searched) \<Rightarrow>
                         (Replaced path args, CalledNewOcCommand # searched)
                     | (NotTriggered, searched) \<Rightarrow>
                         (Returned cmd h', CalledNewOcCommand # searched)))))"

subsection \<open>CommandFor\<close>

text \<open>Lines 347-351: on Windows the name is made lower-case and loses its \<^verbatim>\<open>.exe\<close>.\<close>

definition normalize :: "externals \<Rightarrow> string \<Rightarrow> string" where
  "normalize ext basename =
     (if GOOS ext = ''windows'' then TrimSuffix (ToLower ext basename) ''.exe'' else basename)"

text \<open>Lines 366-372: the segments of a plugin-style name, underscores made dashes.\<close>

definition pluginArgs :: "string \<Rightarrow> string list" where
  "pluginArgs basename =
     map (\<lambda>arg. Replace arg (CHR ''_'') (CHR ''-'')) (Split (TrimPrefix basename ''kubectl-'') (CHR ''-''))"

text \<open>Lines 378-393: the new parent made of the target, with the flags of the root
  \<open>cmd\<close> and of the target, and the target's children.\<close>

definition newParent :: "Command \<Rightarrow> Command \<Rightarrow> Command" where
  "newParent cmd targetCmd =
     (let p = Command (Use targetCmd) (Short targetCmd) (Long targetCmd) (Example targetCmd)
                (Run targetCmd) None None False None Map.empty Map.empty [];
          p = Command (Use p) (Short p) (Long p) (Example p) (Run p)
                (PersistentPreRunE p) (PersistentPostRunE p) (Hidden p) (UsageFunc p)
                (AddFlagSet (AddFlagSet (Flags p) (Flags cmd)) (Flags targetCmd))
                (AddFlagSet (PersistentFlags p) (PersistentFlags targetCmd))
                (Commands p)
      in AddCommand p (Commands targetCmd))"

text \<open>Lines 398-401.\<close>

definition withUsage :: "Command \<Rightarrow> Command" where
  "withUsage cmd = (if UsageFunc cmd = None then ActsAsRootCommand cmd else cmd)"

definition CommandFor :: "externals \<Rightarrow> string \<Rightarrow> flag_heap \<Rightarrow> outcome \<times> event list" where
  "CommandFor ext basename0 h =
     (let basename = normalize ext basename0 in
      if basename = ''kubectl''
      then (Returned (withUsage (NewDefaultKubectlCommand ext)) h, [CalledNewDefaultKubectlCommand])
      else if basename = ''openshift-deploy''
      then (Returned (withUsage (NewCommandDeployer ext basename)) h, [CalledNewCommandDeployer basename])
      else if basename = ''openshift-recycle''
      then (Returned (withUsage (NewCommandRecycle ext basename)) h, [CalledNewCommandRecycle basename])
      else
        (case NewDefaultOcCommand ext h of
           (Returned cmd h', events) \<Rightarrow>
             (Returned
                (withUsage
                   (if HasPrefix basename ''kubectl-''
                    then (case Find cmd (pluginArgs basename) of
                            (Some targetCmd, rest, None) \<Rightarrow> newParent cmd targetCmd
                          | (Some targetCmd, rest, Some err) \<Rightarrow> cmd
                          | (None, rest, err) \<Rightarrow> cmd)
                    else cmd))
                h',
              CalledShimKubectlForOc # events)
         | (Replaced path args, events) \<Rightarrow> (Replaced path args, CalledShimKubectlForOc # events)
         | (Exited status errout, events) \<Rightarrow> (Exited status errout, CalledShimKubectlForOc # events)))"

subsection \<open>When the plugin handler is called\<close>

text \<open>What \<^verbatim>\<open>NewDefaultOcCommand\<close> does, by the three conditions of lines 103, 112 and
  124-125 and the result of the handler.\<close>

definition matcherFails :: "Command \<Rightarrow> string list \<Rightarrow> bool" where
  "matcherFails cmd args = (snd (snd (Find cmd args)) \<noteq> None)"

definition handlerCalled :: "externals \<Rightarrow> flag_heap \<Rightarrow> bool" where
  "handlerCalled ext h =
     (1 < length (Args ext)
      \<and> matcherFails (fst (NewOcCommand ext h)) (tl (Args ext))
      \<and> firstNonFlag (tl (Args ext)) \<noteq> ''help''
      \<and> firstNonFlag (tl (Args ext)) \<noteq> ShellCompRequestCmd ext
      \<and> firstNonFlag (tl (Args ext)) \<noteq> ShellCompNoDescRequestCmd ext)"


subsection \<open>Paths in a tree\<close>

text \<open>The node that a list of names leads to from \<open>c\<close>, each name being the name of a child
  of the node before (the first such child, in the order of the children).\<close>

fun follows :: "Command \<Rightarrow> string list \<Rightarrow> Command option" where
  "follows c [] = Some c"
| "follows c (name # names) =
     (case find (\<lambda>child. CommandName child = name) (Commands c) of
        None \<Rightarrow> None
      | Some child \<Rightarrow> follows child names)"



subsection \<open>The nodes of a tree\<close>

fun nodes :: "Command \<Rightarrow> Command list" where
  "nodes (Command u s l e r pre post hid uf fs pfs cs) =
     Command u s l e r pre post hid uf fs pfs cs # concat (map nodes cs)"

text \<open>The flag as the pass leaves it, and the flags the pass looks for: the one a node's
  own flag set holds under the name \<^verbatim>\<open>validate\<close>, when its usage has the marker.\<close>

definition ignored :: "Flag \<Rightarrow> Flag" where
  "ignored f = f\<lparr>DefValue := ''ignore'', Value := ''ignore'', Changed := False\<rparr>"

definition isValidateFlagOf :: "Command \<Rightarrow> flag_heap \<Rightarrow> nat \<Rightarrow> bool" where
  "isValidateFlagOf c h a =
     (Lookup (Flags c) ''validate'' = Some a \<and> Contains (Usage (h a)) validateMarker)"

definition validateTargets :: "Command list \<Rightarrow> flag_heap \<Rightarrow> nat set" where
  "validateTargets qs h = {a. \<exists>q \<in> set qs. \<exists>c \<in> set (nodes q). isValidateFlagOf c h a}"


subsection \<open>An example\<close>

text \<open>A small tree: \<^verbatim>\<open>oc\<close> with the children \<^verbatim>\<open>create\<close> (which has the child
  \<^verbatim>\<open>route\<close>, which has the child \<^verbatim>\<open>edge\<close>), \<^verbatim>\<open>new-app\<close> and \<^verbatim>\<open>check\<close>; a heap in which every flag but the one at
  address 3 has the marker in its usage; and a process in which the only executable on
  PATH is \<^verbatim>\<open>/usr/bin/kubectl-hello\<close>.\<close>

definition exampleFlag :: "string \<Rightarrow> Flag" where
  "exampleFlag usage =
     \<lparr>Name = ''validate'', Usage = usage, DefValue = ''strict'', Value = ''warn'', Changed = True\<rparr>"

definition exampleHeap :: flag_heap where
  "exampleHeap a = (if a = 3 then exampleFlag ''Validate the input'' else exampleFlag validateMarker)"

definition exampleCommand :: "string \<Rightarrow> FlagSet \<Rightarrow> FlagSet \<Rightarrow> Command list \<Rightarrow> Command" where
  "exampleCommand use fs pfs cs =
     Command use [] [] [] (Some (ExternalRun 0)) None None False None fs pfs cs"

definition exampleEdge :: Command where
  "exampleEdge = exampleCommand ''edge'' Map.empty Map.empty []"

definition exampleRoute :: Command where
  "exampleRoute =
     exampleCommand ''route NAME'' [''validate'' \<mapsto> 4, ''port'' \<mapsto> 6] Map.empty [exampleEdge]"

definition exampleCreate :: Command where
  "exampleCreate = exampleCommand ''create'' [''validate'' \<mapsto> 1] Map.empty [exampleRoute]"

definition exampleTree :: Command where
  "exampleTree =
     exampleCommand ''oc'' [''loglevel'' \<mapsto> 7, ''port'' \<mapsto> 8] [''validate'' \<mapsto> 2]
       [exampleCreate,
        exampleCommand ''new-app'' Map.empty Map.empty [],
        exampleCommand ''check'' [''validate'' \<mapsto> 3] Map.empty []]"

definition exampleExternals :: "string \<Rightarrow> string list \<Rightarrow> externals" where
  "exampleExternals goos args =
     \<lparr>GOOS = goos, ToLower = asciiToLower, Args = args, PATH = [''/usr/bin''],
      executable = (\<lambda>path. path = ''/usr/bin/kubectl-hello''),
      ValidPluginFilenamePrefixes = [''kubectl-''],
      ShellCompRequestCmd = ''__complete'', ShellCompNoDescRequestCmd = ''__completeNoDesc'',
      notFoundError = (\<lambda>names. ''unknown command''),
      NewDefaultKubectlCommand = exampleCommand ''kubectl'' Map.empty Map.empty [],
      NewCommandDeployer = (\<lambda>name. exampleCommand name Map.empty Map.empty []),
      NewCommandRecycle = (\<lambda>name. exampleCommand name Map.empty Map.empty []),
      warningsAsErrorsFlag = 0, kubeFlags = [''namespace'' \<mapsto> 5],
      groupCommands = Commands exampleTree,
      NewCmdPlugin = exampleCommand ''plugin'' Map.empty Map.empty [],
      NewCmdVersion = exampleCommand ''version'' Map.empty Map.empty [],
      NewCmdOptions = exampleCommand ''options'' Map.empty Map.empty []\<rparr>"

definition exampleRoot :: Command where
  "exampleRoot =
     Command ''oc'' ''Command line tools for managing applications'' cliLong []
       (Some runHelp) (Some SetDefaultWarningHandler) (Some WarningsAsErrorsCheck)
       False (Some RootTemplater) Map.empty
       ([''warnings-as-errors'' \<mapsto> 0] ++ [''namespace'' \<mapsto> 5])
       (Commands exampleTree @
        [newExperimentalCommand,
         exampleCommand ''plugin'' Map.empty Map.empty [],
         exampleCommand ''version'' Map.empty Map.empty [],
         exampleCommand ''options'' Map.empty Map.empty []])"

section \<open>Properties\<close>


subsection \<open>Warnings as errors\<close>

text \<open>
  C5: with the warnings-as-errors flag enabled, a run with exactly 0 warnings ends without
  a final error (exit 0), a run with exactly 1 warning ends with the error
  "1 warning received" and a run with exactly 2 warnings with the error
  "2 warnings received" (both a nonzero exit); with the flag disabled no warning count
  produces a final error.
\<close>

theorem warnings_as_errors_outcomes:
  "PersistentPostRunE_oc True 0 = None
   \<and> exitStatus (PersistentPostRunE_oc True 0) = 0
   \<and> PersistentPostRunE_oc True 1 = Some ''1 warning received''
   \<and> exitStatus (PersistentPostRunE_oc True 1) \<noteq> 0
   \<and> PersistentPostRunE_oc True 2 = Some ''2 warnings received''
   \<and> exitStatus (PersistentPostRunE_oc True 2) \<noteq> 0
   \<and> (\<forall>count. PersistentPostRunE_oc False count = None
              \<and> exitStatus (PersistentPostRunE_oc False count) = 0)"
  by (simp add: PersistentPostRunE_oc_def exitStatus_def Sprintf_d_def digits.simps)

subsection \<open>The pass in closed form\<close>

lemma nodes_unfold: "nodes c = c # concat (map nodes (Commands c))"
  by (cases c) simp

lemma setValidateIgnore_apply:
  "setValidateIgnore c h a = (if isValidateFlagOf c h a then ignored (h a) else h a)"
  by (auto simp: setValidateIgnore_def isValidateFlagOf_def ignored_def split: option.splits)

lemma ignored_Usage [simp]: "Usage (ignored f) = Usage f"
  by (simp add: ignored_def)

lemma ignored_ignored [simp]: "ignored (ignored f) = ignored f"
  by (simp add: ignored_def)

lemma setValidateIgnore_Usage [simp]: "Usage (setValidateIgnore c h a) = Usage (h a)"
  by (simp add: setValidateIgnore_apply)

lemma isValidateFlagOf_set [simp]:
  "isValidateFlagOf c' (setValidateIgnore c h) a = isValidateFlagOf c' h a"
  by (simp add: isValidateFlagOf_def)

lemma validateTargets_set [simp]:
  "validateTargets qs (setValidateIgnore c h) = validateTargets qs h"
  by (simp add: validateTargets_def)

lemma validateTargets_append:
  "validateTargets (xs @ ys) h = validateTargets xs h \<union> validateTargets ys h"
  by (auto simp: validateTargets_def)

lemma validateTargets_Cons:
  "validateTargets (c # rest) h =
     {a. isValidateFlagOf c h a} \<union> validateTargets (Commands c) h \<union> validateTargets rest h"
  by (subst nodes_unfold [of c] | simp add: validateTargets_def)+ auto

text \<open>By computation induction on the loop: what is still to be visited are the commands
  from index \<open>i\<close> on and everything below them.\<close>

lemma changeSharedFlagDefaults_loop_char:
  "changeSharedFlagDefaults_loop i cmds h =
     (\<lambda>a. if a \<in> validateTargets (drop i cmds) h then ignored (h a) else h a)"
proof (induction i cmds h rule: changeSharedFlagDefaults_loop.induct)
  case (1 i cmds h)
  show ?case
  proof (cases "i < length cmds")
    case False
    then show ?thesis
      by (subst changeSharedFlagDefaults_loop.simps) (simp add: validateTargets_def)
  next
    case True
    let ?c = "cmds ! i"
    let ?h = "setValidateIgnore ?c h"
    from True have d: "drop i cmds = ?c # drop (Suc i) cmds"
      by (simp add: Cons_nth_drop_Suc)
    have "changeSharedFlagDefaults_loop i cmds h =
          changeSharedFlagDefaults_loop (i + 1) (cmds @ Commands ?c) ?h"
      using True by (subst changeSharedFlagDefaults_loop.simps) simp
    also have "\<dots> = (\<lambda>a. if a \<in> validateTargets (drop (i + 1) (cmds @ Commands ?c)) ?h
                         then ignored (?h a) else ?h a)"
      using 1 [OF True] .
    also have "\<dots> = (\<lambda>a. if a \<in> validateTargets (drop i cmds) h then ignored (h a) else h a)"
      using True
      by (auto simp: d validateTargets_Cons validateTargets_append setValidateIgnore_apply fun_eq_iff)
    finally show ?thesis .
  qed
qed

lemma changeSharedFlagDefaults_char:
  "changeSharedFlagDefaults root h =
     (\<lambda>a. if \<exists>c \<in> set (nodes root). isValidateFlagOf c h a then ignored (h a) else h a)"
  by (simp add: changeSharedFlagDefaults_def changeSharedFlagDefaults_loop_char validateTargets_def)

lemma Usage_changeSharedFlagDefaults [simp]:
  "Usage (changeSharedFlagDefaults root h a) = Usage (h a)"
  by (simp add: changeSharedFlagDefaults_char)

lemma isValidateFlagOf_changeSharedFlagDefaults [simp]:
  "isValidateFlagOf c (changeSharedFlagDefaults root h) a = isValidateFlagOf c h a"
  by (simp add: isValidateFlagOf_def)

lemma changeSharedFlagDefaults_idem:
  "changeSharedFlagDefaults root (changeSharedFlagDefaults root h) = changeSharedFlagDefaults root h"
proof (rule ext)
  fix a
  have "changeSharedFlagDefaults root (changeSharedFlagDefaults root h) a =
        (if \<exists>c \<in> set (nodes root). isValidateFlagOf c h a
         then ignored (changeSharedFlagDefaults root h a) else changeSharedFlagDefaults root h a)"
    by (subst changeSharedFlagDefaults_char) simp
  also have "\<dots> = changeSharedFlagDefaults root h a"
    by (simp add: changeSharedFlagDefaults_char)
  finally show "changeSharedFlagDefaults root (changeSharedFlagDefaults root h) a =
                changeSharedFlagDefaults root h a" .
qed

lemma changeSharedFlagDefaults_funpow:
  "0 < n \<Longrightarrow> (changeSharedFlagDefaults root ^^ n) h = changeSharedFlagDefaults root h"
proof (induction n)
  case 0
  then show ?case by simp
next
  case (Suc n)
  show ?case
  proof (cases "n = 0")
    case True
    then show ?thesis by simp
  next
    case False
    then show ?thesis using Suc.IH by (simp add: changeSharedFlagDefaults_idem)
  qed
qed

lemma HasPrefix_self [simp]: "HasPrefix s s"
  by (induction s) simp_all

lemma Contains_self [simp]: "Contains s s"
  by (cases s) simp_all

subsection \<open>The shared-default normalization\<close>

text \<open>
  C4: after one or more runs of the pass over a tree, every node whose own flag set holds a
  flag named exactly "validate" whose usage contains the marker phrase has that flag with
  default "ignore", current value "ignore" and the changed bit false; running the pass
  again changes nothing; and every flag that is not such a flag of some node's own flag
  set (a flag held only by inherited flag sets, a flag without the marker) is as it was,
  as are the name and the usage of every flag.
\<close>

theorem validate_normalized:
  assumes "0 < n"
  shows "(\<forall>c \<in> set (nodes root). \<forall>a.
            Lookup (Flags c) ''validate'' = Some a
            \<and> Contains (Usage ((changeSharedFlagDefaults root ^^ n) h a)) validateMarker
            \<longrightarrow> DefValue ((changeSharedFlagDefaults root ^^ n) h a) = ''ignore''
              \<and> Value ((changeSharedFlagDefaults root ^^ n) h a) = ''ignore''
              \<and> \<not> Changed ((changeSharedFlagDefaults root ^^ n) h a))
       \<and> changeSharedFlagDefaults root ((changeSharedFlagDefaults root ^^ n) h)
           = (changeSharedFlagDefaults root ^^ n) h
       \<and> (\<forall>a. (\<forall>c \<in> set (nodes root).
                  \<not> (Lookup (Flags c) ''validate'' = Some a \<and> Contains (Usage (h a)) validateMarker))
              \<longrightarrow> (changeSharedFlagDefaults root ^^ n) h a = h a)
       \<and> (\<forall>a. Name ((changeSharedFlagDefaults root ^^ n) h a) = Name (h a)
              \<and> Usage ((changeSharedFlagDefaults root ^^ n) h a) = Usage (h a))"
proof -
  have n: "(changeSharedFlagDefaults root ^^ n) h = changeSharedFlagDefaults root h"
    using assms by (rule changeSharedFlagDefaults_funpow)
  show ?thesis
    unfolding n
    by (auto simp: changeSharedFlagDefaults_idem changeSharedFlagDefaults_char
        isValidateFlagOf_def ignored_def)
qed

theorem validate_normalized_witness:
  "(0::nat) < 2
   \<and> DefValue ((changeSharedFlagDefaults exampleTree ^^ 2) exampleHeap 1) = ''ignore''
   \<and> Value ((changeSharedFlagDefaults exampleTree ^^ 2) exampleHeap 4) = ''ignore''
   \<and> \<not> Changed ((changeSharedFlagDefaults exampleTree ^^ 2) exampleHeap 1)
   \<and> (changeSharedFlagDefaults exampleTree ^^ 2) exampleHeap 2 = exampleHeap 2
   \<and> (changeSharedFlagDefaults exampleTree ^^ 2) exampleHeap 3 = exampleHeap 3
   \<and> Value (exampleHeap 1) = ''warn''"
  using validate_normalized [of 2 exampleTree exampleHeap]
  by (simp add: exampleTree_def exampleCreate_def exampleRoute_def exampleEdge_def exampleCommand_def exampleHeap_def exampleFlag_def Lookup_def
      validateMarker_def del: funpow.simps)

subsection \<open>The search for an external plugin\<close>

lemma candidates_Nil: "candidates prefixes names = [] \<longleftrightarrow> prefixes = [] \<or> names = []"
proof (cases names rule: rev_cases)
  case Nil
  then show ?thesis by (simp add: candidates_def)
next
  case (snoc ys y)
  then show ?thesis by (cases prefixes) (simp_all add: candidates_def)
qed

lemma scan_searched_Nil: "snd (scan ext cs) = [] \<longleftrightarrow> cs = []"
  by (induction cs) (auto split: option.splits prod.splits)

lemma scan_searched: "e \<in> set (snd (scan ext cs)) \<Longrightarrow> \<exists>file. e = SearchedPath file"
  by (induction cs) (auto split: option.splits prod.splits)

lemma scan_no_match:
  "\<forall>c \<in> set cs. LookPath ext (snd c) = None \<Longrightarrow>
   scan ext cs = (None, map (\<lambda>c. SearchedPath (snd c)) cs)"
  by (induction cs) auto

lemma HandlePluginCommand_searched:
  "snd (HandlePluginCommand ext cmdArgs) \<noteq> [] \<longleftrightarrow>
     nonFlagArgs cmdArgs \<noteq> [] \<and> ValidPluginFilenamePrefixes ext \<noteq> []"
proof (cases "nonFlagArgs cmdArgs = []")
  case True
  then show ?thesis by (simp add: HandlePluginCommand_def)
next
  case False
  obtain found searched where
    s: "scan ext (candidates (ValidPluginFilenamePrefixes ext) (nonFlagArgs cmdArgs)) = (found, searched)"
    by (cases "scan ext (candidates (ValidPluginFilenamePrefixes ext) (nonFlagArgs cmdArgs))")
  have "snd (HandlePluginCommand ext cmdArgs) = searched"
    using False s by (simp add: HandlePluginCommand_def split: option.splits prod.splits)
  moreover have "searched = [] \<longleftrightarrow> ValidPluginFilenamePrefixes ext = []"
    using scan_searched_Nil [of ext "candidates (ValidPluginFilenamePrefixes ext) (nonFlagArgs cmdArgs)"]
      False s by (simp add: candidates_Nil)
  ultimately show ?thesis using False by simp
qed

lemma HandlePluginCommand_events:
  "e \<in> set (snd (HandlePluginCommand ext cmdArgs)) \<Longrightarrow> \<exists>file. e = SearchedPath file"
  using scan_searched [of e ext "candidates (ValidPluginFilenamePrefixes ext) (nonFlagArgs cmdArgs)"]
  by (auto simp: HandlePluginCommand_def split: if_splits option.splits prod.splits)

lemma HandlePluginCommand_NotTriggered:
  "fst (HandlePluginCommand ext cmdArgs) = NotTriggered \<longleftrightarrow> nonFlagArgs cmdArgs = []"
  by (auto simp: HandlePluginCommand_def split: option.splits prod.splits)

lemma NewDefaultOcCommand_not_called:
  "\<not> handlerCalled ext h \<Longrightarrow>
   NewDefaultOcCommand ext h =
     (Returned (fst (NewOcCommand ext h)) (snd (NewOcCommand ext h)), [CalledNewOcCommand])"
  by (auto simp: handlerCalled_def matcherFails_def NewDefaultOcCommand_def Let_def
      split: prod.splits option.splits)

lemma NewDefaultOcCommand_called:
  "handlerCalled ext h \<Longrightarrow>
   NewDefaultOcCommand ext h =
     (case HandlePluginCommand ext (tl (Args ext)) of
        (Failed msg, searched) \<Rightarrow> (Exited 1 (msg @ ''\<newline>''), CalledNewOcCommand # searched)
      | (Handed path args, searched) \<Rightarrow> (Replaced path args, CalledNewOcCommand # searched)
      | (NotTriggered, searched) \<Rightarrow>
          (Returned (fst (NewOcCommand ext h)) (snd (NewOcCommand ext h)), CalledNewOcCommand # searched))"
  by (auto simp: handlerCalled_def matcherFails_def NewDefaultOcCommand_def Let_def
      split: prod.splits option.splits handled.splits)

lemma NewDefaultOcCommand_searched:
  "(\<exists>file. SearchedPath file \<in> set (snd (NewDefaultOcCommand ext h))) \<longleftrightarrow>
     handlerCalled ext h \<and> nonFlagArgs (tl (Args ext)) \<noteq> [] \<and> ValidPluginFilenamePrefixes ext \<noteq> []"
proof (cases "handlerCalled ext h")
  case False
  then show ?thesis by (simp add: NewDefaultOcCommand_not_called)
next
  case True
  obtain r searched where hp: "HandlePluginCommand ext (tl (Args ext)) = (r, searched)"
    by (cases "HandlePluginCommand ext (tl (Args ext))")
  have ev: "snd (NewDefaultOcCommand ext h) = CalledNewOcCommand # searched"
    using True hp by (simp add: NewDefaultOcCommand_called split: handled.splits)
  have "(\<exists>file. SearchedPath file \<in> set searched) \<longleftrightarrow> searched \<noteq> []"
  proof
    assume "searched \<noteq> []"
    then obtain e where "e \<in> set searched" by (cases searched) auto
    moreover from this obtain fl where "e = SearchedPath fl"
      using HandlePluginCommand_events [of e ext "tl (Args ext)"] hp by auto
    ultimately show "\<exists>file. SearchedPath file \<in> set searched" by auto
  qed auto
  then show ?thesis
    using True ev HandlePluginCommand_searched [of ext "tl (Args ext)"] hp by simp
qed

text \<open>
  C7: a search for an external plugin happens only when there is a non-flag argument, the
  matcher of the built-in tree fails on the arguments, and the first non-flag argument is
  neither "help" nor one of the two completion commands; in every other case nothing is
  searched and the built-in tree is returned. With a plugin prefix configured, the three
  conditions together do lead to a search.
\<close>

theorem plugin_search_trigger:
  "((\<exists>file. SearchedPath file \<in> set (snd (NewDefaultOcCommand ext h))) \<longrightarrow>
      nonFlagArgs (tl (Args ext)) \<noteq> []
      \<and> matcherFails (fst (NewOcCommand ext h)) (tl (Args ext))
      \<and> firstNonFlag (tl (Args ext)) \<notin> {''help'', ShellCompRequestCmd ext, ShellCompNoDescRequestCmd ext})
   \<and> (\<not> (nonFlagArgs (tl (Args ext)) \<noteq> []
          \<and> matcherFails (fst (NewOcCommand ext h)) (tl (Args ext))
          \<and> firstNonFlag (tl (Args ext)) \<notin> {''help'', ShellCompRequestCmd ext, ShellCompNoDescRequestCmd ext}) \<longrightarrow>
        NewDefaultOcCommand ext h =
          (Returned (fst (NewOcCommand ext h)) (snd (NewOcCommand ext h)), [CalledNewOcCommand]))
   \<and> (nonFlagArgs (tl (Args ext)) \<noteq> []
        \<and> matcherFails (fst (NewOcCommand ext h)) (tl (Args ext))
        \<and> firstNonFlag (tl (Args ext)) \<notin> {''help'', ShellCompRequestCmd ext, ShellCompNoDescRequestCmd ext}
        \<and> ValidPluginFilenamePrefixes ext \<noteq> [] \<longrightarrow>
        (\<exists>file. SearchedPath file \<in> set (snd (NewDefaultOcCommand ext h))))"
proof -
  have args: "1 < length (Args ext)" if "nonFlagArgs (tl (Args ext)) \<noteq> []"
    using that by (cases "Args ext") (auto simp: nonFlagArgs_def)
  have quiet: "NewDefaultOcCommand ext h =
      (Returned (fst (NewOcCommand ext h)) (snd (NewOcCommand ext h)), [CalledNewOcCommand])"
    if c: "handlerCalled ext h" and n: "nonFlagArgs (tl (Args ext)) = []"
  proof -
    have "HandlePluginCommand ext (tl (Args ext)) = (NotTriggered, [])"
      using n by (simp add: HandlePluginCommand_def)
    then show ?thesis using c by (simp add: NewDefaultOcCommand_called)
  qed
  show ?thesis
    using args quiet NewDefaultOcCommand_not_called [of ext h]
    unfolding NewDefaultOcCommand_searched
    by (auto simp: handlerCalled_def)
qed

text \<open>
  C6: when the search is triggered and no candidate of any length and prefix is an
  executable on PATH, the program writes the handler's not-found message and a newline to
  the error stream and exits with status 1; nothing is executed and no command is
  returned, by \<^verbatim>\<open>NewDefaultOcCommand\<close> and so by \<^verbatim>\<open>CommandFor\<close>.
\<close>

theorem plugin_not_found_exits:
  assumes "nonFlagArgs (tl (Args ext)) \<noteq> []"
    and "matcherFails (fst (NewOcCommand ext h)) (tl (Args ext))"
    and "firstNonFlag (tl (Args ext)) \<notin> {''help'', ShellCompRequestCmd ext, ShellCompNoDescRequestCmd ext}"
    and "\<forall>c \<in> set (candidates (ValidPluginFilenamePrefixes ext) (nonFlagArgs (tl (Args ext)))).
           LookPath ext (snd c) = None"
  shows "NewDefaultOcCommand ext h =
           (Exited 1 (notFoundError ext (nonFlagArgs (tl (Args ext))) @ ''\<newline>''),
            CalledNewOcCommand #
              map (\<lambda>c. SearchedPath (snd c))
                (candidates (ValidPluginFilenamePrefixes ext) (nonFlagArgs (tl (Args ext)))))
         \<and> (normalize ext basename \<notin> {''kubectl'', ''openshift-deploy'', ''openshift-recycle''} \<longrightarrow>
              fst (CommandFor ext basename h) =
                Exited 1 (notFoundError ext (nonFlagArgs (tl (Args ext))) @ ''\<newline>''))"
proof -
  have "1 < length (Args ext)"
    using assms(1) by (cases "Args ext") (auto simp: nonFlagArgs_def)
  then have called: "handlerCalled ext h"
    using assms(2,3) by (simp add: handlerCalled_def)
  have "HandlePluginCommand ext (tl (Args ext)) =
          (Failed (notFoundError ext (nonFlagArgs (tl (Args ext)))),
           map (\<lambda>c. SearchedPath (snd c))
             (candidates (ValidPluginFilenamePrefixes ext) (nonFlagArgs (tl (Args ext)))))"
    using assms(1) scan_no_match [OF assms(4)] by (simp add: HandlePluginCommand_def)
  then have default: "NewDefaultOcCommand ext h =
           (Exited 1 (notFoundError ext (nonFlagArgs (tl (Args ext))) @ ''\<newline>''),
            CalledNewOcCommand #
              map (\<lambda>c. SearchedPath (snd c))
                (candidates (ValidPluginFilenamePrefixes ext) (nonFlagArgs (tl (Args ext)))))"
    using called by (simp add: NewDefaultOcCommand_called)
  then show ?thesis
    by (simp add: CommandFor_def Let_def)
qed

subsection \<open>The tree that CommandFor selects\<close>

lemma CommandFor_default:
  assumes "normalize ext basename \<notin> {''kubectl'', ''openshift-deploy'', ''openshift-recycle''}"
    and "NewDefaultOcCommand ext h = (Returned cmd h', events)"
  shows "CommandFor ext basename h =
           (Returned
              (withUsage
                 (if HasPrefix (normalize ext basename) ''kubectl-''
                  then (case Find cmd (pluginArgs (normalize ext basename)) of
                          (Some targetCmd, rest, None) \<Rightarrow> newParent cmd targetCmd
                        | (Some targetCmd, rest, Some err) \<Rightarrow> cmd
                        | (None, rest, err) \<Rightarrow> cmd)
                  else cmd))
              h',
            CalledShimKubectlForOc # events)"
  using assms by (simp add: CommandFor_def Let_def)

lemma CommandFor_rerooted:
  assumes "HasPrefix (normalize ext basename) ''kubectl-''"
    and "NewDefaultOcCommand ext h = (Returned cmd h', events)"
    and "Find cmd (pluginArgs (normalize ext basename)) = (Some targetCmd, rest, None)"
  shows "CommandFor ext basename h =
           (Returned (withUsage (newParent cmd targetCmd)) h', CalledShimKubectlForOc # events)"
proof -
  have "normalize ext basename \<notin> {''kubectl'', ''openshift-deploy'', ''openshift-recycle''}"
    using assms(1) by auto
  from CommandFor_default [OF this assms(2)] show ?thesis
    using assms(1,3) by simp
qed

lemma CommandFor_not_rerooted:
  assumes "normalize ext basename \<notin> {''kubectl'', ''openshift-deploy'', ''openshift-recycle''}"
    and "NewDefaultOcCommand ext h = (Returned cmd h', events)"
    and "\<not> (HasPrefix (normalize ext basename) ''kubectl-''
            \<and> (\<exists>targetCmd rest. Find cmd (pluginArgs (normalize ext basename)) = (Some targetCmd, rest, None)))"
  shows "CommandFor ext basename h = (Returned (withUsage cmd) h', CalledShimKubectlForOc # events)"
  using CommandFor_default [OF assms(1,2)] assms(3)
  by (auto split: prod.splits option.splits)

lemma NewDefaultOcCommand_events:
  "CalledNewOcCommand \<in> set (snd (NewDefaultOcCommand ext h))"
  by (cases "handlerCalled ext h")
    (auto simp: NewDefaultOcCommand_called NewDefaultOcCommand_not_called
      split: prod.splits handled.splits)

text \<open>
  C1, as amended: each of the three fixed names selects the tree of its own constructor,
  which is the only constructor called, a different one for each name, and the default
  tree is not built; any other name has the default tree built by
  \<^verbatim>\<open>NewDefaultOcCommand\<close> and, provided that call returns (it does not when it hands
  the process to an external plugin or exits), selects the re-rooted subtree if the name has
  the plugin prefix and the resolution succeeds, and the default tree otherwise. The
  basename is the one normalized for the platform; the command selected gets the default
  help formatting if it has none.
\<close>

theorem CommandFor_selects:
  "(normalize ext basename = ''kubectl'' \<longrightarrow>
      CommandFor ext basename h =
        (Returned (withUsage (NewDefaultKubectlCommand ext)) h, [CalledNewDefaultKubectlCommand]))
   \<and> (normalize ext basename = ''openshift-deploy'' \<longrightarrow>
      CommandFor ext basename h =
        (Returned (withUsage (NewCommandDeployer ext ''openshift-deploy'')) h,
         [CalledNewCommandDeployer ''openshift-deploy'']))
   \<and> (normalize ext basename = ''openshift-recycle'' \<longrightarrow>
      CommandFor ext basename h =
        (Returned (withUsage (NewCommandRecycle ext ''openshift-recycle'')) h,
         [CalledNewCommandRecycle ''openshift-recycle'']))
   \<and> (normalize ext basename \<in> {''kubectl'', ''openshift-deploy'', ''openshift-recycle''} \<longrightarrow>
      CalledNewOcCommand \<notin> set (snd (CommandFor ext basename h)))
   \<and> (normalize ext basename \<notin> {''kubectl'', ''openshift-deploy'', ''openshift-recycle''} \<longrightarrow>
      CalledNewOcCommand \<in> set (snd (CommandFor ext basename h))
      \<and> (\<forall>cmd h' events. NewDefaultOcCommand ext h = (Returned cmd h', events) \<longrightarrow>
           (\<forall>targetCmd rest.
              HasPrefix (normalize ext basename) ''kubectl-''
              \<and> Find cmd (pluginArgs (normalize ext basename)) = (Some targetCmd, rest, None) \<longrightarrow>
              CommandFor ext basename h =
                (Returned (withUsage (newParent cmd targetCmd)) h', CalledShimKubectlForOc # events))
           \<and> (\<not> (HasPrefix (normalize ext basename) ''kubectl-''
                  \<and> (\<exists>targetCmd rest.
                        Find cmd (pluginArgs (normalize ext basename)) = (Some targetCmd, rest, None))) \<longrightarrow>
              CommandFor ext basename h =
                (Returned (withUsage cmd) h', CalledShimKubectlForOc # events))))"
proof -
  have special: "CalledNewOcCommand \<notin> set (snd (CommandFor ext basename h))"
    if "normalize ext basename \<in> {''kubectl'', ''openshift-deploy'', ''openshift-recycle''}"
    using that by (auto simp: CommandFor_def Let_def)
  have other: "CalledNewOcCommand \<in> set (snd (CommandFor ext basename h))"
    if "normalize ext basename \<notin> {''kubectl'', ''openshift-deploy'', ''openshift-recycle''}"
    using that NewDefaultOcCommand_events [of ext h]
    by (auto simp: CommandFor_def Let_def split: prod.splits outcome.splits)
  have fixed: "normalize ext basename = ''kubectl'' \<longrightarrow>
      CommandFor ext basename h =
        (Returned (withUsage (NewDefaultKubectlCommand ext)) h, [CalledNewDefaultKubectlCommand])"
    "normalize ext basename = ''openshift-deploy'' \<longrightarrow>
      CommandFor ext basename h =
        (Returned (withUsage (NewCommandDeployer ext ''openshift-deploy'')) h,
         [CalledNewCommandDeployer ''openshift-deploy''])"
    "normalize ext basename = ''openshift-recycle'' \<longrightarrow>
      CommandFor ext basename h =
        (Returned (withUsage (NewCommandRecycle ext ''openshift-recycle'')) h,
         [CalledNewCommandRecycle ''openshift-recycle''])"
    by (simp_all add: CommandFor_def Let_def)
  show ?thesis
    using special other fixed CommandFor_rerooted [of ext basename h]
      CommandFor_not_rerooted [of ext basename h]
    by blast
qed

subsection \<open>Resolution of a plugin-style name\<close>

lemma walk_follows:
  "follows c matched = Some t \<Longrightarrow>
   rest = [] \<or> (\<forall>child \<in> set (Commands t). CommandName child \<noteq> hd rest) \<Longrightarrow>
   walk c (matched @ rest) = (t, rest)"
proof (induction matched arbitrary: c)
  case Nil
  show ?case
  proof (cases rest)
    case Nil
    then show ?thesis using Nil.prems by simp
  next
    case (Cons a as)
    then have "find (\<lambda>child. CommandName child = a) (Commands t) = None"
      using Nil.prems by (auto simp: find_None_iff)
    then show ?thesis using Nil.prems Cons by simp
  qed
next
  case (Cons name names)
  then show ?case by (auto split: option.splits)
qed

lemma Find_follows:
  assumes "follows c matched = Some t" and "matched \<noteq> []"
    and "rest = [] \<or> (\<forall>child \<in> set (Commands t). CommandName child \<noteq> hd rest)"
  shows "Find c (matched @ rest) = (Some t, rest, None)"
  using walk_follows [OF assms(1,3)] assms(2) by (simp add: Find_def)

lemma Split_not_Nil [simp]: "Split s sep \<noteq> []"
  by (induction s) (auto split: list.splits)

lemma pluginArgs_not_Nil [simp]: "pluginArgs basename \<noteq> []"
  by (simp add: pluginArgs_def)

lemma Find_first_unmatched:
  assumes "args \<noteq> []" and "\<forall>child \<in> set (Commands c). CommandName child \<noteq> hd args"
  shows "Find c args = (None, args, Some (UnknownCommand (hd args)))"
proof -
  obtain a as where args: "args = a # as" using assms(1) by (cases args) auto
  then have "find (\<lambda>child. CommandName child = a) (Commands c) = None"
    using assms(2) by (auto simp: find_None_iff)
  then show ?thesis by (simp add: Find_def args)
qed

text \<open>
  C2: for a name with the plugin prefix, the walk from the root of the default tree takes
  each segment to the child whose name equals it; when the segments are a matched part
  followed by a rest whose first segment is the name of no child of the node reached (or
  by nothing), and the matched part is not empty, the node reached is the target, the rest
  is ignored and the re-rooted tree is returned; when no child of the root has a name
  equal to the first segment, the default tree is returned.
\<close>

theorem reroot_resolution:
  assumes "HasPrefix (normalize ext basename) ''kubectl-''"
    and "NewDefaultOcCommand ext h = (Returned cmd h', events)"
  shows "(\<forall>matched rest targetCmd.
            pluginArgs (normalize ext basename) = matched @ rest
            \<and> matched \<noteq> []
            \<and> follows cmd matched = Some targetCmd
            \<and> (rest = [] \<or> (\<forall>child \<in> set (Commands targetCmd). CommandName child \<noteq> hd rest))
            \<longrightarrow> Find cmd (pluginArgs (normalize ext basename)) = (Some targetCmd, rest, None)
              \<and> CommandFor ext basename h =
                  (Returned (withUsage (newParent cmd targetCmd)) h', CalledShimKubectlForOc # events))
       \<and> ((\<forall>child \<in> set (Commands cmd). CommandName child \<noteq> hd (pluginArgs (normalize ext basename)))
            \<longrightarrow> CommandFor ext basename h =
                  (Returned (withUsage cmd) h', CalledShimKubectlForOc # events))"
proof (intro conjI allI impI)
  fix matched rest targetCmd
  assume a: "pluginArgs (normalize ext basename) = matched @ rest
            \<and> matched \<noteq> []
            \<and> follows cmd matched = Some targetCmd
            \<and> (rest = [] \<or> (\<forall>child \<in> set (Commands targetCmd). CommandName child \<noteq> hd rest))"
  then show f: "Find cmd (pluginArgs (normalize ext basename)) = (Some targetCmd, rest, None)"
    using Find_follows [of cmd matched targetCmd rest] by simp
  show "CommandFor ext basename h =
          (Returned (withUsage (newParent cmd targetCmd)) h', CalledShimKubectlForOc # events)"
    using CommandFor_rerooted [OF assms f] .
next
  assume "\<forall>child \<in> set (Commands cmd). CommandName child \<noteq> hd (pluginArgs (normalize ext basename))"
  then have "Find cmd (pluginArgs (normalize ext basename)) =
      (None, pluginArgs (normalize ext basename),
       Some (UnknownCommand (hd (pluginArgs (normalize ext basename)))))"
    by (intro Find_first_unmatched) simp_all
  moreover have "normalize ext basename \<notin> {''kubectl'', ''openshift-deploy'', ''openshift-recycle''}"
    using assms(1) by auto
  ultimately show "CommandFor ext basename h =
      (Returned (withUsage cmd) h', CalledShimKubectlForOc # events)"
    using CommandFor_not_rerooted [OF _ assms(2), of basename] by simp
qed

subsection \<open>Underscores in segments\<close>

lemma Split_no_sep: "sep \<notin> set s \<Longrightarrow> Split s sep = [s]"
  by (induction s) auto

lemma Split_append_sep: "sep \<notin> set s \<Longrightarrow> Split (s @ sep # t) sep = s # Split t sep"
  by (induction s) auto

lemma Split_Join:
  "segments \<noteq> [] \<Longrightarrow> \<forall>s \<in> set segments. CHR ''-'' \<notin> set s \<Longrightarrow>
   Split (Join segments ''-'') (CHR ''-'') = segments"
proof (induction segments "''-''" rule: Join.induct)
  case 1
  then show ?case by simp
next
  case (2 s)
  then show ?case by (simp add: Split_no_sep)
next
  case (3 s t ss)
  then show ?case by (simp add: Split_append_sep)
qed

lemma HasPrefix_append [simp]: "HasPrefix (p @ s) p"
  by (induction p) simp_all

lemma TrimPrefix_append [simp]: "TrimPrefix (p @ s) p = s"
  by (simp add: TrimPrefix_def)

lemma pluginArgs_Join:
  assumes "segments \<noteq> []" and "\<forall>s \<in> set segments. CHR ''-'' \<notin> set s"
  shows "pluginArgs (''kubectl-'' @ Join segments ''-'') =
           map (\<lambda>s. Replace s (CHR ''_'') (CHR ''-'')) segments"
proof -
  have "TrimPrefix (''kubectl-'' @ Join segments ''-'') ''kubectl-'' = Join segments ''-''"
    by (rule TrimPrefix_append)
  then show ?thesis
    unfolding pluginArgs_def using Split_Join [OF assms] by simp
qed

text \<open>
  C9: for the name made of the plugin prefix and segments joined by dashes, the names
  looked for in the tree are the segments with every underscore made a dash, so the
  segment "foo_bar" resolves as the name "foo-bar" does: the command returned is the
  one re-rooted at the target that the matcher finds for these names, or the default tree
  when it finds none.
\<close>

theorem underscore_segments:
  assumes "NewDefaultOcCommand ext h = (Returned cmd h', events)"
    and "normalize ext basename = ''kubectl-'' @ Join segments ''-''"
    and "segments \<noteq> []"
    and "\<forall>s \<in> set segments. CHR ''-'' \<notin> set s"
  shows "pluginArgs (normalize ext basename) = map (\<lambda>s. Replace s (CHR ''_'') (CHR ''-'')) segments
       \<and> CommandFor ext basename h =
           (Returned
              (withUsage
                 (case Find cmd (map (\<lambda>s. Replace s (CHR ''_'') (CHR ''-'')) segments) of
                    (Some targetCmd, rest, None) \<Rightarrow> newParent cmd targetCmd
                  | (Some targetCmd, rest, Some err) \<Rightarrow> cmd
                  | (None, rest, err) \<Rightarrow> cmd))
              h',
            CalledShimKubectlForOc # events)"
proof -
  have args: "pluginArgs (normalize ext basename) =
      map (\<lambda>s. Replace s (CHR ''_'') (CHR ''-'')) segments"
    unfolding assms(2) using assms(3,4) by (rule pluginArgs_Join)
  have "HasPrefix (normalize ext basename) ''kubectl-''"
    unfolding assms(2) by (rule HasPrefix_append)
  moreover from this
  have "normalize ext basename \<notin> {''kubectl'', ''openshift-deploy'', ''openshift-recycle''}"
    by auto
  ultimately show ?thesis
    using CommandFor_default [OF _ assms(1), of basename] args by simp
qed

subsection \<open>The synthesized root\<close>

lemma withUsage_fields [simp]:
  "Use (withUsage c) = Use c" "Short (withUsage c) = Short c" "Long (withUsage c) = Long c"
  "Example (withUsage c) = Example c" "Run (withUsage c) = Run c"
  "PersistentPreRunE (withUsage c) = PersistentPreRunE c"
  "PersistentPostRunE (withUsage c) = PersistentPostRunE c"
  "Hidden (withUsage c) = Hidden c"
  "Flags (withUsage c) = Flags c" "PersistentFlags (withUsage c) = PersistentFlags c"
  "Commands (withUsage c) = Commands c"
  by (simp_all add: withUsage_def ActsAsRootCommand_def)

lemma newParent_fields [simp]:
  "Use (newParent cmd t) = Use t" "Short (newParent cmd t) = Short t"
  "Long (newParent cmd t) = Long t" "Example (newParent cmd t) = Example t"
  "Run (newParent cmd t) = Run t"
  "PersistentPreRunE (newParent cmd t) = None" "PersistentPostRunE (newParent cmd t) = None"
  "Hidden (newParent cmd t) = False" "UsageFunc (newParent cmd t) = None"
  "Flags (newParent cmd t) = Flags cmd ++ Flags t"
  "PersistentFlags (newParent cmd t) = PersistentFlags t"
  "Commands (newParent cmd t) = Commands t"
  by (simp_all add: newParent_def AddCommand_def AddFlagSet_def Let_def)

lemma NewDefaultOcCommand_Returned:
  "NewDefaultOcCommand ext h = (Returned cmd h', events) \<Longrightarrow> cmd = fst (NewOcCommand ext h)"
  by (cases "handlerCalled ext h")
    (auto simp: NewDefaultOcCommand_called NewDefaultOcCommand_not_called
      split: prod.splits handled.splits)

lemma NewOcCommand_hooks:
  "PersistentPreRunE (fst (NewOcCommand ext h)) = Some SetDefaultWarningHandler"
  "PersistentPostRunE (fst (NewOcCommand ext h)) = Some WarningsAsErrorsCheck"
  by (simp_all add: NewOcCommand_def Let_def AddCommand_def ActsAsRootCommand_def)

text \<open>
  C8: after a successful re-rooting the children of the command returned are the target's
  children, the same commands in the same order, and the flag heap is the one the default
  command was built with; every path of names that leads from the target to a command
  below it leads from the command returned to the same command, and every grandchild of
  the target is a node of the tree returned.
\<close>

theorem reroot_children:
  assumes "HasPrefix (normalize ext basename) ''kubectl-''"
    and "NewDefaultOcCommand ext h = (Returned cmd h', events)"
    and "Find cmd (pluginArgs (normalize ext basename)) = (Some targetCmd, rest, None)"
  shows "\<exists>root. fst (CommandFor ext basename h) = Returned root h'
       \<and> Commands root = Commands targetCmd
       \<and> (\<forall>names below. names \<noteq> [] \<and> follows targetCmd names = Some below \<longrightarrow>
             follows root names = Some below)
       \<and> (\<forall>child \<in> set (Commands targetCmd). \<forall>grandchild \<in> set (Commands child).
             grandchild \<in> set (nodes root))"
proof -
  let ?root = "withUsage (newParent cmd targetCmd)"
  have "fst (CommandFor ext basename h) = Returned ?root h'"
    using CommandFor_rerooted [OF assms] by simp
  moreover have "Commands ?root = Commands targetCmd" by simp
  moreover have "follows ?root names = Some below"
    if "names \<noteq> [] \<and> follows targetCmd names = Some below" for names below
    using that by (cases names) simp_all
  moreover have "grandchild \<in> set (nodes ?root)"
    if "child \<in> set (Commands targetCmd)" and "grandchild \<in> set (Commands child)"
    for child grandchild
  proof -
    have "grandchild \<in> set (nodes grandchild)"
      by (subst nodes_unfold) simp
    then have "grandchild \<in> set (nodes child)"
      using that(2) by (subst nodes_unfold) auto
    then show ?thesis
      using that(1) by (subst nodes_unfold) auto
  qed
  ultimately show ?thesis by blast
qed

text \<open>
  C10: the command returned after a successful re-rooting has the target's Use, Short,
  Long, Example and Run, and neither a persistent pre-run nor a persistent post-run hook,
  although the original root has both: the hook that installs the warning handler and the
  hook that checks the warnings when they count as errors. The target's Hidden field is not
  copied either.
\<close>

theorem reroot_fields:
  assumes "HasPrefix (normalize ext basename) ''kubectl-''"
    and "NewDefaultOcCommand ext h = (Returned cmd h', events)"
    and "Find cmd (pluginArgs (normalize ext basename)) = (Some targetCmd, rest, None)"
  shows "\<exists>root. fst (CommandFor ext basename h) = Returned root h'
       \<and> Use root = Use targetCmd \<and> Short root = Short targetCmd \<and> Long root = Long targetCmd
       \<and> Example root = Example targetCmd \<and> Run root = Run targetCmd
       \<and> PersistentPreRunE root = None \<and> PersistentPostRunE root = None
       \<and> Hidden root = False
       \<and> PersistentPreRunE cmd = Some SetDefaultWarningHandler
       \<and> PersistentPostRunE cmd = Some WarningsAsErrorsCheck"
proof -
  have "fst (CommandFor ext basename h) = Returned (withUsage (newParent cmd targetCmd)) h'"
    using CommandFor_rerooted [OF assms] by simp
  moreover have "PersistentPreRunE cmd = Some SetDefaultWarningHandler"
    "PersistentPostRunE cmd = Some WarningsAsErrorsCheck"
    using NewDefaultOcCommand_Returned [OF assms(2)] NewOcCommand_hooks [of ext h] by simp_all
  ultimately show ?thesis by simp
qed

subsection \<open>The example evaluated\<close>

lemma example_NewOcCommand:
  "fst (NewOcCommand (exampleExternals goos args) h) = exampleRoot"
  by (simp add: NewOcCommand_def exampleExternals_def exampleRoot_def Let_def AddCommand_def
      ActsAsRootCommand_def)

lemma example_Commands:
  "Commands exampleRoot =
     [exampleCreate,
      exampleCommand ''new-app'' Map.empty Map.empty [],
      exampleCommand ''check'' [''validate'' \<mapsto> 3] Map.empty [],
      newExperimentalCommand,
      exampleCommand ''plugin'' Map.empty Map.empty [],
      exampleCommand ''version'' Map.empty Map.empty [],
      exampleCommand ''options'' Map.empty Map.empty []]"
  by (simp add: exampleRoot_def exampleTree_def exampleCommand_def)

lemma example_names [simp]:
  "CommandName exampleCreate = ''create''"
  "CommandName exampleRoute = ''route''"
  "CommandName exampleEdge = ''edge''"
  "CommandName newExperimentalCommand = ''ex''"
  "CommandName (exampleCommand ''new-app'' fs pfs cs) = ''new-app''"
  "CommandName (exampleCommand ''check'' fs pfs cs) = ''check''"
  "CommandName (exampleCommand ''plugin'' fs pfs cs) = ''plugin''"
  "CommandName (exampleCommand ''version'' fs pfs cs) = ''version''"
  "CommandName (exampleCommand ''options'' fs pfs cs) = ''options''"
  by (simp_all add: CommandName_def exampleCreate_def exampleRoute_def exampleEdge_def exampleCommand_def
      newExperimentalCommand_def)

lemma example_Commands_Create [simp]: "Commands exampleCreate = [exampleRoute]"
  by (simp add: exampleCreate_def exampleCommand_def)

lemma example_Commands_Route [simp]: "Commands exampleRoute = [exampleEdge]"
  by (simp add: exampleRoute_def exampleCommand_def)

lemma example_Commands_Edge [simp]: "Commands exampleEdge = []"
  by (simp add: exampleEdge_def exampleCommand_def)

lemma example_follows:
  "follows exampleRoot [''create'', ''route''] = Some exampleRoute"
  "follows exampleRoot [''create''] = Some exampleCreate"
  "follows exampleRoot [''new-app''] = Some (exampleCommand ''new-app'' Map.empty Map.empty [])"
  by (simp_all add: example_Commands)

lemma example_Find:
  "Find exampleRoot [''create'', ''route''] = (Some exampleRoute, [], None)"
  "Find exampleRoot [''create'', ''routes'', ''route''] = (Some exampleCreate, [''routes'', ''route''], None)"
  "Find exampleRoot [''creat''] = (None, [''creat''], Some (UnknownCommand ''creat''))"
  "Find exampleRoot [''hello''] = (None, [''hello''], Some (UnknownCommand ''hello''))"
  "Find exampleRoot [''help''] = (None, [''help''], Some (UnknownCommand ''help''))"
  "Find exampleRoot [''new-app''] = (Some (exampleCommand ''new-app'' Map.empty Map.empty []), [], None)"
  "Find exampleRoot [''new_app''] = (None, [''new_app''], Some (UnknownCommand ''new_app''))"
  "Find exampleRoot [''create''] = (Some exampleCreate, [], None)"
  "Find exampleRoot [''ex''] = (Some newExperimentalCommand, [], None)"
  by (simp_all add: Find_def example_Commands)

lemma example_normalize:
  "normalize (exampleExternals ''linux'' args) basename = basename"
  "normalize (exampleExternals ''windows'' args) ''KUBECTL.EXE'' = ''kubectl''"
  by (simp_all add: normalize_def exampleExternals_def asciiToLower_def lower_char_def TrimSuffix_def
      HasSuffix_def)

lemma example_pluginArgs:
  "pluginArgs ''kubectl-create-route'' = [''create'', ''route'']"
  "pluginArgs ''kubectl-create-routes-route'' = [''create'', ''routes'', ''route'']"
  "pluginArgs ''kubectl-creat'' = [''creat'']"
  "pluginArgs ''kubectl-new_app'' = [''new-app'']"
  "pluginArgs ''kubectl-create'' = [''create'']"
  "pluginArgs ''kubectl-ex'' = [''ex'']"
  by (simp_all add: pluginArgs_def TrimPrefix_def Replace_def)

lemma example_default:
  "NewDefaultOcCommand (exampleExternals goos [''oc'']) h =
     (Returned exampleRoot (snd (NewOcCommand (exampleExternals goos [''oc'']) h)), [CalledNewOcCommand])"
proof -
  have "\<not> handlerCalled (exampleExternals goos [''oc'']) h"
    by (simp add: handlerCalled_def exampleExternals_def)
  from NewDefaultOcCommand_not_called [OF this] show ?thesis
    by (simp add: example_NewOcCommand)
qed

lemma example_fields [simp]:
  "Args (exampleExternals goos args) = args"
  "GOOS (exampleExternals goos args) = goos"
  "ValidPluginFilenamePrefixes (exampleExternals goos args) = [''kubectl-'']"
  "ShellCompRequestCmd (exampleExternals goos args) = ''__complete''"
  "ShellCompNoDescRequestCmd (exampleExternals goos args) = ''__completeNoDesc''"
  "notFoundError (exampleExternals goos args) names = ''unknown command''"
  "NewDefaultKubectlCommand (exampleExternals goos args) = exampleCommand ''kubectl'' Map.empty Map.empty []"
  "NewCommandDeployer (exampleExternals goos args) name = exampleCommand name Map.empty Map.empty []"
  "NewCommandRecycle (exampleExternals goos args) name = exampleCommand name Map.empty Map.empty []"
  by (simp_all add: exampleExternals_def)

lemma example_LookPath:
  "LookPath (exampleExternals goos args) ''kubectl-hello'' = Some ''/usr/bin/kubectl-hello''"
  "LookPath (exampleExternals goos args) ''kubectl-nothing-here'' = None"
  "LookPath (exampleExternals goos args) ''kubectl-nothing'' = None"
  by (simp_all add: LookPath_def exampleExternals_def)

lemma example_candidates:
  "candidates [''kubectl-''] [''hello''] = [(1, ''kubectl-hello'')]"
  "candidates [''kubectl-''] [''nothing'', ''here''] =
     [(2, ''kubectl-nothing-here''), (1, ''kubectl-nothing'')]"
  by (simp_all add: candidates_def)

lemma example_nonFlagArgs:
  "nonFlagArgs [''hello''] = [''hello'']"
  "nonFlagArgs [''nothing'', ''here''] = [''nothing'', ''here'']"
  "nonFlagArgs [''create''] = [''create'']"
  "nonFlagArgs [''help''] = [''help'']"
  "firstNonFlag [''hello''] = ''hello''"
  "firstNonFlag [''nothing'', ''here''] = ''nothing''"
  "firstNonFlag [''create''] = ''create''"
  "firstNonFlag [''help''] = ''help''"
  by (simp_all add: nonFlagArgs_def firstNonFlag_def)

lemma example_matcherFails:
  "matcherFails exampleRoot [''hello'']"
  "matcherFails exampleRoot [''help'']"
  "matcherFails exampleRoot [''nothing'', ''here'']"
  "\<not> matcherFails exampleRoot [''create'']"
  by (simp_all add: matcherFails_def Find_def example_Commands)

theorem plugin_search_trigger_witness:
  "(\<exists>file. SearchedPath file \<in>
       set (snd (NewDefaultOcCommand (exampleExternals ''linux'' [''oc'', ''hello'']) exampleHeap)))
   \<and> NewDefaultOcCommand (exampleExternals ''linux'' [''oc'', ''create'']) exampleHeap =
       (Returned exampleRoot
          (snd (NewOcCommand (exampleExternals ''linux'' [''oc'', ''create'']) exampleHeap)),
        [CalledNewOcCommand])
   \<and> NewDefaultOcCommand (exampleExternals ''linux'' [''oc'', ''help'']) exampleHeap =
       (Returned exampleRoot
          (snd (NewOcCommand (exampleExternals ''linux'' [''oc'', ''help'']) exampleHeap)),
        [CalledNewOcCommand])"
  using plugin_search_trigger [of "exampleExternals ''linux'' [''oc'', ''hello'']" exampleHeap]
    plugin_search_trigger [of "exampleExternals ''linux'' [''oc'', ''create'']" exampleHeap]
    plugin_search_trigger [of "exampleExternals ''linux'' [''oc'', ''help'']" exampleHeap]
  by (simp add: example_NewOcCommand example_nonFlagArgs example_matcherFails)

theorem plugin_not_found_exits_witness:
  "NewDefaultOcCommand (exampleExternals ''linux'' [''oc'', ''nothing'', ''here'']) exampleHeap =
     (Exited 1 ''unknown command\<newline>'',
      [CalledNewOcCommand, SearchedPath ''kubectl-nothing-here'', SearchedPath ''kubectl-nothing''])
   \<and> fst (CommandFor (exampleExternals ''linux'' [''oc'', ''nothing'', ''here'']) ''oc'' exampleHeap) =
       Exited 1 ''unknown command\<newline>''"
  using plugin_not_found_exits
    [of "exampleExternals ''linux'' [''oc'', ''nothing'', ''here'']" exampleHeap "''oc''"]
  by (simp add: example_NewOcCommand example_nonFlagArgs example_matcherFails example_candidates
      example_LookPath example_normalize)

lemma example_prefix:
  "HasPrefix (normalize (exampleExternals ''linux'' args) ''kubectl-create-route'') ''kubectl-''"
  "HasPrefix (normalize (exampleExternals ''linux'' args) ''kubectl-create-routes-route'') ''kubectl-''"
  "HasPrefix (normalize (exampleExternals ''linux'' args) ''kubectl-creat'') ''kubectl-''"
  "HasPrefix (normalize (exampleExternals ''linux'' args) ''kubectl-create'') ''kubectl-''"
  "HasPrefix (normalize (exampleExternals ''linux'' args) ''kubectl-ex'') ''kubectl-''"
  by (simp_all add: example_normalize)

theorem CommandFor_selects_witness:
  "CommandFor (exampleExternals ''windows'' [''oc'']) ''KUBECTL.EXE'' exampleHeap =
     (Returned (withUsage (exampleCommand ''kubectl'' Map.empty Map.empty [])) exampleHeap,
      [CalledNewDefaultKubectlCommand])
   \<and> CommandFor (exampleExternals ''linux'' [''oc'']) ''openshift-deploy'' exampleHeap =
     (Returned (withUsage (exampleCommand ''openshift-deploy'' Map.empty Map.empty [])) exampleHeap,
      [CalledNewCommandDeployer ''openshift-deploy''])
   \<and> CommandFor (exampleExternals ''linux'' [''oc'']) ''openshift-recycle'' exampleHeap =
     (Returned (withUsage (exampleCommand ''openshift-recycle'' Map.empty Map.empty [])) exampleHeap,
      [CalledNewCommandRecycle ''openshift-recycle''])
   \<and> CommandFor (exampleExternals ''linux'' [''oc'']) ''oc'' exampleHeap =
     (Returned (withUsage exampleRoot)
        (snd (NewOcCommand (exampleExternals ''linux'' [''oc'']) exampleHeap)),
      [CalledShimKubectlForOc, CalledNewOcCommand])
   \<and> CommandFor (exampleExternals ''linux'' [''oc'']) ''kubectl-create-route'' exampleHeap =
     (Returned (withUsage (newParent exampleRoot exampleRoute))
        (snd (NewOcCommand (exampleExternals ''linux'' [''oc'']) exampleHeap)),
      [CalledShimKubectlForOc, CalledNewOcCommand])
   \<and> CommandFor (exampleExternals ''linux'' [''oc'']) ''kubectl-creat'' exampleHeap =
     (Returned (withUsage exampleRoot)
        (snd (NewOcCommand (exampleExternals ''linux'' [''oc'']) exampleHeap)),
      [CalledShimKubectlForOc, CalledNewOcCommand])"
  using CommandFor_selects [of "exampleExternals ''windows'' [''oc'']" "''KUBECTL.EXE''" exampleHeap]
    CommandFor_selects [of "exampleExternals ''linux'' [''oc'']" "''openshift-deploy''" exampleHeap]
    CommandFor_selects [of "exampleExternals ''linux'' [''oc'']" "''openshift-recycle''" exampleHeap]
    CommandFor_selects [of "exampleExternals ''linux'' [''oc'']" "''oc''" exampleHeap]
    CommandFor_selects [of "exampleExternals ''linux'' [''oc'']" "''kubectl-create-route''" exampleHeap]
    CommandFor_selects [of "exampleExternals ''linux'' [''oc'']" "''kubectl-creat''" exampleHeap]
  by (simp add: example_normalize example_default example_pluginArgs example_Find)

text \<open>With the argument \<^verbatim>\<open>hello\<close>, which names no command of the tree, and
  \<^verbatim>\<open>kubectl-hello\<close> on PATH, \<^verbatim>\<open>CommandFor\<close> returns no command for the name
  \<^verbatim>\<open>oc\<close>: the process becomes the plugin.\<close>

theorem CommandFor_handoff_counterexample:
  "fst (CommandFor (exampleExternals ''linux'' [''oc'', ''hello'']) ''oc'' exampleHeap) =
     Replaced ''/usr/bin/kubectl-hello'' []"
proof -
  have "handlerCalled (exampleExternals ''linux'' [''oc'', ''hello'']) exampleHeap"
    by (simp add: handlerCalled_def example_NewOcCommand example_matcherFails example_nonFlagArgs)
  from NewDefaultOcCommand_called [OF this]
  have "fst (NewDefaultOcCommand (exampleExternals ''linux'' [''oc'', ''hello'']) exampleHeap) =
          Replaced ''/usr/bin/kubectl-hello'' []"
    by (simp add: HandlePluginCommand_def example_nonFlagArgs example_candidates example_LookPath)
  then obtain events where
    "NewDefaultOcCommand (exampleExternals ''linux'' [''oc'', ''hello'']) exampleHeap =
       (Replaced ''/usr/bin/kubectl-hello'' [], events)"
    by (cases "NewDefaultOcCommand (exampleExternals ''linux'' [''oc'', ''hello'']) exampleHeap") simp
  then show ?thesis
    by (simp add: CommandFor_def Let_def example_normalize)
qed

theorem reroot_resolution_witness:
  "Find exampleRoot (pluginArgs ''kubectl-create-routes-route'') =
     (Some exampleCreate, [''routes'', ''route''], None)
   \<and> CommandFor (exampleExternals ''linux'' [''oc'']) ''kubectl-create-routes-route'' exampleHeap =
     (Returned (withUsage (newParent exampleRoot exampleCreate))
        (snd (NewOcCommand (exampleExternals ''linux'' [''oc'']) exampleHeap)),
      [CalledShimKubectlForOc, CalledNewOcCommand])
   \<and> CommandFor (exampleExternals ''linux'' [''oc'']) ''kubectl-creat'' exampleHeap =
     (Returned (withUsage exampleRoot)
        (snd (NewOcCommand (exampleExternals ''linux'' [''oc'']) exampleHeap)),
      [CalledShimKubectlForOc, CalledNewOcCommand])"
proof -
  note matched = reroot_resolution [where ext = "exampleExternals ''linux'' [''oc'']" and h = exampleHeap,
      OF example_prefix(2) example_default, THEN conjunct1, rule_format,
      of "[''create'']" "[''routes'', ''route'']" exampleCreate]
  note unmatched = reroot_resolution [where ext = "exampleExternals ''linux'' [''oc'']" and h = exampleHeap,
      OF example_prefix(3) example_default, THEN conjunct2]
  show ?thesis
    using matched unmatched
    by (simp add: example_normalize example_pluginArgs example_follows example_Commands)
qed

theorem underscore_segments_witness:
  "pluginArgs ''kubectl-new_app'' = [''new-app'']
   \<and> CommandFor (exampleExternals ''linux'' [''oc'']) ''kubectl-new_app'' exampleHeap =
     (Returned (withUsage (newParent exampleRoot (exampleCommand ''new-app'' Map.empty Map.empty [])))
        (snd (NewOcCommand (exampleExternals ''linux'' [''oc'']) exampleHeap)),
      [CalledShimKubectlForOc, CalledNewOcCommand])"
  using underscore_segments [where ext = "exampleExternals ''linux'' [''oc'']" and h = exampleHeap
      and basename = "''kubectl-new_app''" and segments = "[''new_app'']", OF example_default]
  by (simp add: example_normalize example_Find Replace_def)

theorem reroot_children_witness:
  "\<exists>root. fst (CommandFor (exampleExternals ''linux'' [''oc'']) ''kubectl-create'' exampleHeap) =
       Returned root (snd (NewOcCommand (exampleExternals ''linux'' [''oc'']) exampleHeap))
     \<and> Commands root = [exampleRoute]
     \<and> follows root [''route'', ''edge''] = Some exampleEdge
     \<and> exampleEdge \<in> set (nodes root)"
proof -
  have f: "Find exampleRoot (pluginArgs (normalize (exampleExternals ''linux'' [''oc'']) ''kubectl-create'')) =
      (Some exampleCreate, [], None)"
    by (simp add: example_normalize example_pluginArgs example_Find)
  from reroot_children [OF example_prefix(4) example_default f]
  obtain root where
    r: "fst (CommandFor (exampleExternals ''linux'' [''oc'']) ''kubectl-create'' exampleHeap) =
          Returned root (snd (NewOcCommand (exampleExternals ''linux'' [''oc'']) exampleHeap))
        \<and> Commands root = Commands exampleCreate
        \<and> (\<forall>names below. names \<noteq> [] \<and> follows exampleCreate names = Some below \<longrightarrow>
              follows root names = Some below)
        \<and> (\<forall>child \<in> set (Commands exampleCreate). \<forall>grandchild \<in> set (Commands child).
              grandchild \<in> set (nodes root))" ..
  from r have "follows root [''route'', ''edge''] = Some exampleEdge"
    by simp
  moreover from r have "exampleEdge \<in> set (nodes root)"
    by simp
  ultimately show ?thesis using r by simp
qed

theorem reroot_fields_witness:
  "\<exists>root. fst (CommandFor (exampleExternals ''linux'' [''oc'']) ''kubectl-ex'' exampleHeap) =
       Returned root (snd (NewOcCommand (exampleExternals ''linux'' [''oc'']) exampleHeap))
     \<and> Use root = ''ex''
     \<and> Short root = ''Experimental commands under active development''
     \<and> Run root = Some experimentalHelp
     \<and> PersistentPreRunE root = None \<and> PersistentPostRunE root = None
     \<and> Hidden root = False \<and> Hidden newExperimentalCommand
     \<and> PersistentPreRunE exampleRoot = Some SetDefaultWarningHandler
     \<and> PersistentPostRunE exampleRoot = Some WarningsAsErrorsCheck"
  using reroot_fields [where ext = "exampleExternals ''linux'' [''oc'']" and h = exampleHeap
      and targetCmd = newExperimentalCommand and rest = "[]", OF example_prefix(5) example_default]
  by (simp add: example_normalize example_pluginArgs example_Find newExperimentalCommand_def) blast

end
